theory Spec2Isabelle
  imports Main "HOL-Library.Word"
begin

unbundle bit_operations_syntax

section \<open>Data model\<close>

text \<open>
  The package \<^verbatim>\<open>sshserver\<close> (configuration in \<^verbatim>\<open>Config\<close>, server in \<^verbatim>\<open>Server\<close>).
  A Go \<^verbatim>\<open>byte\<close> is an 8-bit character and a Go \<^verbatim>\<open>string\<close> is an immutable sequence of
  bytes, so both \<^verbatim>\<open>[]byte\<close> and \<^verbatim>\<open>string\<close> are lists of \<^typ>\<open>char\<close> and the conversions
  \<^verbatim>\<open>string(b)\<close> and \<^verbatim>\<open>[]byte(s)\<close> are the identity. \<^verbatim>\<open>uint32\<close> is a 32-bit word whose
  arithmetic wraps. Go's \<^verbatim>\<open>int\<close> is 32 or 64 bits wide, as the build target has it, and
  nothing in the package fixes the target: the width is a parameter. The length of a slice
  is an \<^verbatim>\<open>int\<close> that is never negative, written as an unbounded integer.
\<close>

type_synonym byte = char
type_synonym uint32 = "32 word"

datatype int_size = Int32 | Int64

text \<open>The conversion \<^verbatim>\<open>int(v)\<close> of a \<^verbatim>\<open>uint32\<close>: the same number where \<^verbatim>\<open>int\<close> has 64 bits,
  the two's complement reading of the 32 bits where it has 32, negative from \<open>2 ^ 31\<close>
  on.\<close>

fun int_of_uint32 :: "int_size \<Rightarrow> uint32 \<Rightarrow> int" where
  "int_of_uint32 Int32 v = sint v"
| "int_of_uint32 Int64 v = uint v"

text \<open>Every \<^verbatim>\<open>fmt.Errorf\<close> and every error passed on from the operating system or the
  transport library is a constructor.\<close>

datatype error =
    ListenAddressEmpty
  | HostKeyPathEmpty
  | AuthorizedKeysPathEmpty
  | HostKeyFileNotFound string
  | AuthorizedKeysFileNotFound string
  | InvalidConfiguration error
  | OpenLogFileFailed
  | LoadPrivateKeyFailed
  | ParsePrivateKeyFailed
  | LoadHostKeyFailed error
  | ListenFailed string
  | ReadFileFailed
  | ParseAuthorizedKeyFailed
  | PublicKeyAuthFailed string
  | ExecPayloadTooShort
  | InvalidCommandLength

text \<open>A call returns a value, returns an error, or panics at run time.\<close>

datatype 'a outcome = Returns 'a | Fails error | Panics

record LogConfig =
  Enabled :: bool
  FilePath :: string
  LogToStdout :: bool

record Config =
  ListenAddress :: string
  HostKeyFile :: string
  AuthorizedKeysFile :: string
  NoClientAuth :: bool
  AllowKeyboardInteractive :: bool
  LogWriter :: "LogConfig option"

text \<open>The part of the operating system the package calls: \<^verbatim>\<open>os.Stat\<close> (does it succeed),
  \<^verbatim>\<open>os.ReadFile\<close> (the contents, or an error) and \<^verbatim>\<open>os.OpenFile\<close> for appending (does it
  succeed).\<close>

record filesystem =
  Stat :: "string \<Rightarrow> bool"
  ReadFile :: "string \<Rightarrow> byte list option"
  OpenFile :: "string \<Rightarrow> bool"

definition DefaultConfig :: Config where
  "DefaultConfig =
     \<lparr>ListenAddress = '':2222'', HostKeyFile = ''server_key'',
      AuthorizedKeysFile = ''authorized_keys'', NoClientAuth = False,
      AllowKeyboardInteractive = False,
      LogWriter = Some \<lparr>Enabled = True, FilePath = ''ssh_server.log'', LogToStdout = True\<rparr>\<rparr>"

section \<open>Configuration check and server construction\<close>

definition Validate :: "filesystem \<Rightarrow> Config \<Rightarrow> error option" where
  "Validate fs c =
     (if ListenAddress c = [] then Some ListenAddressEmpty
      else if \<not> NoClientAuth c then
        (if HostKeyFile c = [] then Some HostKeyPathEmpty
         else if AuthorizedKeysFile c = [] then Some AuthorizedKeysPathEmpty
         else if \<not> Stat fs (HostKeyFile c) then Some (HostKeyFileNotFound (HostKeyFile c))
         else if \<not> Stat fs (AuthorizedKeysFile c)
           then Some (AuthorizedKeysFileNotFound (AuthorizedKeysFile c))
         else None)
      else None)"

text \<open>\<^verbatim>\<open>loadHostKey\<close>; \<^verbatim>\<open>ssh.ParsePrivateKey\<close> belongs to the transport library and is a
  parameter.\<close>

definition loadHostKey ::
  "filesystem \<Rightarrow> (byte list \<Rightarrow> 'signer option) \<Rightarrow> string \<Rightarrow> error + 'signer" where
  "loadHostKey fs ParsePrivateKey keyFile =
     (case ReadFile fs keyFile of
        None \<Rightarrow> Inl LoadPrivateKeyFailed
      | Some privateBytes \<Rightarrow>
          (case ParsePrivateKey privateBytes of
             None \<Rightarrow> Inl ParsePrivateKeyFailed
           | Some private \<Rightarrow> Inr private))"

datatype log_sink = Stdout | LogFile string

record 'signer ServerConfig =
  sshNoClientAuth :: bool
  hostKeys :: "'signer list"
  hasPublicKeyCallback :: bool
  hasKeyboardInteractiveCallback :: bool

text \<open>The server; \<^verbatim>\<open>logWriter\<close> is what the logger writes to: \<open>None\<close> is the nil writer
  that is left when logging is disabled, otherwise the sinks of the \<^verbatim>\<open>io.MultiWriter\<close>. A
  logger with a nil writer panics in its first \<^verbatim>\<open>Printf\<close>.\<close>

record ('handler, 'signer) Server =
  config :: Config
  sshConfig :: "'signer ServerConfig"
  cmdHandler :: "'handler option"
  logWriter :: "log_sink list option"

text \<open>\<^verbatim>\<open>NewServer\<close>. \<^verbatim>\<open>config.LogWriter\<close> is a pointer that the function dereferences
  without a check, so a configuration without one makes it panic.\<close>

definition NewServer ::
  "filesystem \<Rightarrow> (byte list \<Rightarrow> 'signer option) \<Rightarrow> Config \<Rightarrow> 'handler option \<Rightarrow>
     ('handler, 'signer) Server outcome" where
  "NewServer fs ParsePrivateKey cfg handler =
     (case Validate fs cfg of
        Some err \<Rightarrow> Fails (InvalidConfiguration err)
      | None \<Rightarrow>
          (case LogWriter cfg of
             None \<Rightarrow> Panics
           | Some lw \<Rightarrow>
               if Enabled lw \<and> FilePath lw \<noteq> [] \<and> \<not> OpenFile fs (FilePath lw)
               then Fails OpenLogFileFailed
               else
                 let writers =
                       (if Enabled lw
                        then Some ((if LogToStdout lw then [Stdout] else []) @
                                   (if FilePath lw \<noteq> [] then [LogFile (FilePath lw)] else []))
                        else None)
                 in if \<not> NoClientAuth cfg then
                      (case loadHostKey fs ParsePrivateKey (HostKeyFile cfg) of
                         Inl err \<Rightarrow> Fails (LoadHostKeyFailed err)
                       | Inr private \<Rightarrow>
                           Returns
                             \<lparr>config = cfg,
                              sshConfig =
                                \<lparr>sshNoClientAuth = NoClientAuth cfg, hostKeys = [private],
                                 hasPublicKeyCallback = True,
                                 hasKeyboardInteractiveCallback = AllowKeyboardInteractive cfg\<rparr>,
                              cmdHandler = handler, logWriter = writers\<rparr>)
                    else
                      Returns
                        \<lparr>config = cfg,
                         sshConfig =
                           \<lparr>sshNoClientAuth = NoClientAuth cfg, hostKeys = [],
                            hasPublicKeyCallback = False,
                            hasKeyboardInteractiveCallback = False\<rparr>,
                         cmdHandler = handler, logWriter = writers\<rparr>))"

text \<open>\<^verbatim>\<open>Start\<close> binds the listen address with \<^verbatim>\<open>net.Listen\<close>, the only place where the
  package binds a socket, and logs that it listens; \<^verbatim>\<open>Listen\<close> tells whether the address can
  be bound. The result is the outcome and the addresses bound.\<close>

definition Start ::
  "(string \<Rightarrow> bool) \<Rightarrow> ('handler, 'signer) Server \<Rightarrow> unit outcome \<times> string list" where
  "Start Listen srv =
     (if \<not> Listen (ListenAddress (config srv))
      then (Fails (ListenFailed (ListenAddress (config srv))), [])
      else if logWriter srv = None then (Panics, [ListenAddress (config srv)])
      else (Returns (), [ListenAddress (config srv)]))"

text \<open>The start-up of the example programs (\<^verbatim>\<open>main\<close>): construct the server, stop at an
  error, otherwise start it. The result is the addresses bound.\<close>

definition startup ::
  "filesystem \<Rightarrow> (byte list \<Rightarrow> 'signer option) \<Rightarrow> (string \<Rightarrow> bool) \<Rightarrow> Config \<Rightarrow>
     'handler option \<Rightarrow> string list" where
  "startup fs ParsePrivateKey Listen cfg handler =
     (case NewServer fs ParsePrivateKey cfg handler of
        Returns srv \<Rightarrow> snd (Start Listen srv)
      | Fails err \<Rightarrow> []
      | Panics \<Rightarrow> [])"

section \<open>Exec payload codec\<close>

text \<open>A slice expression \<^verbatim>\<open>a[low:high]\<close> panics unless \<open>low \<le> high \<le> cap(a)\<close>; the
  capacity of a request payload is taken to be its length.\<close>

definition slice :: "'a list \<Rightarrow> nat \<Rightarrow> nat \<Rightarrow> 'a list option" where
  "slice a low high =
     (if low \<le> high \<and> high \<le> length a then Some (take (high - low) (drop low a)) else None)"

text \<open>The \<^verbatim>\<open>uint32\<close> read from the first four bytes, most significant byte first.\<close>

definition declaredLength :: "byte list \<Rightarrow> uint32" where
  "declaredLength payload =
     of_char (payload ! 3) OR push_bit 8 (of_char (payload ! 2)) OR
     push_bit 16 (of_char (payload ! 1)) OR push_bit 24 (of_char (payload ! 0))"

text \<open>\<^verbatim>\<open>parseExecPayload\<close>, for a width of \<^verbatim>\<open>int\<close>. The guard compares \<^verbatim>\<open>int(length)\<close> with
  \<^verbatim>\<open>len(payload)-4\<close>; the upper slice bound \<^verbatim>\<open>4+length\<close> is computed in \<^verbatim>\<open>uint32\<close>.\<close>

definition parseExecPayload :: "int_size \<Rightarrow> byte list \<Rightarrow> string outcome" where
  "parseExecPayload arch payload =
     (if length payload < 4 then Fails ExecPayloadTooShort
      else
        let len = declaredLength payload
        in if len = 0 \<or> int_of_uint32 arch len > int (length payload) - 4
           then Fails InvalidCommandLength
           else (case slice payload 4 (unat (4 + len)) of
                   None \<Rightarrow> Panics
                 | Some command \<Rightarrow> Returns command))"

text \<open>The encoder is the peer's and not part of the package; it follows the format of the
  specification (the SSH \<^verbatim>\<open>string\<close> encoding): a four-byte big-endian unsigned length field,
  then the bytes of the command. Four bytes hold the length modulo \<open>2 ^ 32\<close>.\<close>

definition putUint32 :: "uint32 \<Rightarrow> byte list" where
  "putUint32 v =
     [char_of (unat (drop_bit 24 v)), char_of (unat (drop_bit 16 v)),
      char_of (unat (drop_bit 8 v)), char_of (unat v)]"

definition encodeExecPayload :: "string \<Rightarrow> byte list" where
  "encodeExecPayload command = putUint32 (word_of_nat (length command)) @ command"

section \<open>Channel router and line editor\<close>

text \<open>The \<^verbatim>\<open>CommandHandler\<close> interface. An implementation may keep state between calls
  (a game, a chat room), so \<^verbatim>\<open>Execute\<close> takes the state and returns the new one.\<close>

record 's CommandHandler =
  Execute :: "'s \<Rightarrow> string \<Rightarrow> (string \<times> uint32) \<times> 's"
  GetPrompt :: "'s \<Rightarrow> string"
  GetWelcomeMessage :: "'s \<Rightarrow> string"

text \<open>The handler \<^verbatim>\<open>MyHandler\<close> of the package documentation (\<^verbatim>\<open>doc.go\<close>).\<close>

definition MyHandler :: "unit CommandHandler" where
  "MyHandler =
     \<lparr>Execute = (\<lambda>s cmd. ((''Command output'', 0), s)),
      GetPrompt = (\<lambda>s. ''my-server> ''),
      GetWelcomeMessage = (\<lambda>s. ''Welcome to My SSH Server!'')\<rparr>"

record Request =
  Type :: string
  Payload :: "byte list"

text \<open>What a goroutine does to the channel and the handler, in order: a reply to a request,
  bytes written to the channel, a call of \<^verbatim>\<open>Execute\<close>, the start of the shell goroutine,
  the exit-status request, the close of the channel, a run-time panic. Log lines are left
  out: a server that \<^verbatim>\<open>Start\<close> has started has a log writer.\<close>

datatype event =
    Reply bool
  | Write "byte list"
  | Executed string
  | GoHandleShell
  | ExitStatus uint32
  | Close
  | Panic

definition CR :: byte where
  "CR = CHR 0x0D"

definition LF :: byte where
  "LF = CHR 0x0A"

text \<open>\<^verbatim>\<open>handleChannel\<close>: the loop over the channel's requests, which ends when the stream of
  requests ends; the deferred \<^verbatim>\<open>channel.Close()\<close> runs on every way out. The result is the
  goroutine's own events and the handler state it leaves.\<close>

fun handleChannel ::
  "int_size \<Rightarrow> 's CommandHandler option \<Rightarrow> 's \<Rightarrow> Request list \<Rightarrow> event list \<times> 's" where
  "handleChannel arch h s [] = ([Close], s)"
| "handleChannel arch h s (req # requests) =
     (if Type req = ''pty-req'' then
        (case handleChannel arch h s requests of (evs, s') \<Rightarrow> (Reply True # evs, s'))
      else if Type req = ''shell'' then
        (case h of
           None \<Rightarrow>
             (case handleChannel arch h s requests of (evs, s') \<Rightarrow> (Reply True # evs, s'))
         | Some H \<Rightarrow>
             (case handleChannel arch h s requests of
                (evs, s') \<Rightarrow>
                  (Reply True # Write (GetWelcomeMessage H s @ [LF]) # GoHandleShell # evs, s')))
      else if Type req = ''exec'' then
        (case h of
           None \<Rightarrow>
             (case handleChannel arch h s requests of (evs, s') \<Rightarrow> (Reply False # evs, s'))
         | Some H \<Rightarrow>
             (case parseExecPayload arch (Payload req) of
                Fails err \<Rightarrow>
                  (case handleChannel arch h s requests of
                     (evs, s') \<Rightarrow> (Reply False # evs, s'))
              | Panics \<Rightarrow> ([Close, Panic], s)
              | Returns command \<Rightarrow>
                  (case Execute H s command of
                     ((output, exitStatus), s') \<Rightarrow>
                       ([Executed command, Write (output @ [LF]), Reply True,
                         ExitStatus exitStatus, Close], s'))))
      else (case handleChannel arch h s requests of (evs, s') \<Rightarrow> (Reply False # evs, s')))"

text \<open>A request after which \<^verbatim>\<open>handleChannel\<close> stays in its loop: every request but an exec
  request that a command handler gets to see decoded (or that makes the decoder panic).\<close>

definition stays :: "int_size \<Rightarrow> 's CommandHandler option \<Rightarrow> Request \<Rightarrow> bool" where
  "stays arch h req \<longleftrightarrow>
     (Type req = ''exec'' \<longrightarrow> h = None \<or> (\<exists>err. parseExecPayload arch (Payload req) = Fails err))"

text \<open>What one pass of the loop does for such a request: the branches of the \<^verbatim>\<open>switch\<close>
  that do not return.\<close>

definition answer :: "'s CommandHandler option \<Rightarrow> 's \<Rightarrow> Request \<Rightarrow> event list" where
  "answer h s req =
     (if Type req = ''pty-req'' then [Reply True]
      else if Type req = ''shell'' then
        (case h of
           None \<Rightarrow> [Reply True]
         | Some H \<Rightarrow> [Reply True, Write (GetWelcomeMessage H s @ [LF]), GoHandleShell])
      else [Reply False])"

text \<open>The line editor's state: the handler's state, \<^verbatim>\<open>cmdBuffer\<close>, and the events so far.\<close>

record 's editor =
  handlerState :: 's
  cmdBuffer :: "byte list"
  events :: "event list"

text \<open>The body of the inner loop of \<^verbatim>\<open>handleShell\<close>: the \<^verbatim>\<open>switch\<close> on one input byte.\<close>

definition shellByte :: "'s CommandHandler \<Rightarrow> 's editor \<Rightarrow> byte \<Rightarrow> 's editor" where
  "shellByte H st b =
     (if b = CR \<or> b = LF then
        (if length (cmdBuffer st) > 0 then
           (case Execute H (handlerState st) (cmdBuffer st) of
              ((output, exitStatus), s') \<Rightarrow>
                st\<lparr>handlerState := s', cmdBuffer := [],
                   events := events st @
                     [Executed (cmdBuffer st),
                      Write ([CR, LF] @ output @ [CR, LF] @ GetPrompt H s')]\<rparr>)
         else st\<lparr>events := events st @ [Write ([CR, LF] @ GetPrompt H (handlerState st))]\<rparr>)
      else if b = CHR 0x7F \<or> b = CHR 0x08 then
        (if length (cmdBuffer st) > 0 then
           st\<lparr>cmdBuffer := take (length (cmdBuffer st) - 1) (cmdBuffer st),
              events := events st @ [Write [CHR 0x08, CHR 0x20, CHR 0x08]]\<rparr>
         else st)
      else st\<lparr>cmdBuffer := cmdBuffer st @ [b], events := events st @ [Write [b]]\<rparr>)"

text \<open>One \<^verbatim>\<open>channel.Read\<close> gives the bytes read and an error or none; the loop stops at the
  first error and ignores the bytes that came with it. When the reads so far are used up the
  goroutine is blocked in \<^verbatim>\<open>Read\<close>, and the state is the one it waits in.\<close>

datatype read_error = EOF | ReadFailure

fun shellLoop ::
  "'s CommandHandler \<Rightarrow> 's editor \<Rightarrow> (byte list \<times> read_error option) list \<Rightarrow> 's editor" where
  "shellLoop H st [] = st"
| "shellLoop H st ((data, err) # reads) =
     (case err of
        Some e \<Rightarrow> st\<lparr>events := events st @ [Close]\<rparr>
      | None \<Rightarrow> shellLoop H (foldl (shellByte H) st data) reads)"

definition handleShell ::
  "'s CommandHandler \<Rightarrow> 's \<Rightarrow> (byte list \<times> read_error option) list \<Rightarrow> 's editor" where
  "handleShell H s reads =
     shellLoop H \<lparr>handlerState = s, cmdBuffer = [], events = [Write (GetPrompt H s)]\<rparr> reads"

text \<open>The calls of \<^verbatim>\<open>Execute\<close> in a list of events.\<close>

fun executed :: "event list \<Rightarrow> string list" where
  "executed [] = []"
| "executed (Executed cmd # evs) = cmd # executed evs"
| "executed (ev # evs) = executed evs"

section \<open>Public-key authentication\<close>

record Permissions =
  Extensions :: "string \<rightharpoonup> string"

text \<open>The loop of \<^verbatim>\<open>validatePublicKey\<close> over the bytes of the authorized-keys file.
  \<^verbatim>\<open>ssh.ParseAuthorizedKey\<close> and \<^verbatim>\<open>ssh.FingerprintSHA256\<close> belong to the transport library
  and are parameters: the parser gives the next key and the bytes after it, or an error.
  The loop runs as long as the parser leaves bytes, so it is a partial function: \<open>None\<close>
  when it never returns.\<close>

partial_function (option) authorizedKeysLoop ::
  "(byte list \<Rightarrow> ('key \<times> byte list) option) \<Rightarrow> ('key \<Rightarrow> string) \<Rightarrow> string \<Rightarrow> string \<Rightarrow>
     byte list \<Rightarrow> Permissions outcome option" where
  "authorizedKeysLoop ParseAuthorizedKey FingerprintSHA256 user keyFingerprint authorizedKeysBytes =
     (if length authorizedKeysBytes > 0 then
        (case ParseAuthorizedKey authorizedKeysBytes of
           None \<Rightarrow> Some (Fails ParseAuthorizedKeyFailed)
         | Some (pubKey, rest) \<Rightarrow>
             if FingerprintSHA256 pubKey = keyFingerprint
             then Some (Returns \<lparr>Extensions = [''pubkey-fp'' \<mapsto> keyFingerprint]\<rparr>)
             else authorizedKeysLoop ParseAuthorizedKey FingerprintSHA256 user keyFingerprint rest)
      else Some (Fails (PublicKeyAuthFailed user)))"

definition validatePublicKey ::
  "filesystem \<Rightarrow> (byte list \<Rightarrow> ('key \<times> byte list) option) \<Rightarrow> ('key \<Rightarrow> string) \<Rightarrow> Config \<Rightarrow>
     string \<Rightarrow> 'key \<Rightarrow> Permissions outcome option" where
  "validatePublicKey fs ParseAuthorizedKey FingerprintSHA256 cfg user key =
     (case ReadFile fs (AuthorizedKeysFile cfg) of
        None \<Rightarrow> Some (Fails ReadFileFailed)
      | Some authorizedKeysBytes \<Rightarrow>
          authorizedKeysLoop ParseAuthorizedKey FingerprintSHA256 user (FingerprintSHA256 key)
            authorizedKeysBytes)"

text \<open>A parser consumes input when every key it returns comes with fewer bytes left than
  it was given. \<^verbatim>\<open>ssh.ParseAuthorizedKey\<close> returns the bytes after the line of the key.\<close>

definition consuming :: "(byte list \<Rightarrow> ('key \<times> byte list) option) \<Rightarrow> bool" where
  "consuming ParseAuthorizedKey \<longleftrightarrow>
     (\<forall>inp pubKey rest. ParseAuthorizedKey inp = Some (pubKey, rest) \<longrightarrow> length rest < length inp)"

text \<open>The entries of a file: the keys the parser gives one after the other, up to the end
  of the bytes or the first error.\<close>

function entries :: "(byte list \<Rightarrow> ('key \<times> byte list) option) \<Rightarrow> byte list \<Rightarrow> 'key list" where
  "entries ParseAuthorizedKey inp =
     (if inp = [] then []
      else (case ParseAuthorizedKey inp of
              None \<Rightarrow> []
            | Some (pubKey, rest) \<Rightarrow>
                if length rest < length inp then pubKey # entries ParseAuthorizedKey rest
                else [pubKey]))"
  by pat_completeness auto
termination
  by (relation "measure (\<lambda>(p, inp). length inp)") auto

declare entries.simps [simp del]

text \<open>A parser for files with one key per line, a key being a non-empty line, and a
  fingerprint that marks the key's text; they stand in for the library's functions where a
  theorem is applied to a concrete file.\<close>

definition lineParser :: "byte list \<Rightarrow> (string \<times> byte list) option" where
  "lineParser inp =
     (let line = takeWhile (\<lambda>b. b \<noteq> LF) inp
      in if line = [] then None else Some (line, drop (Suc (length line)) inp))"

definition lineFingerprint :: "string \<Rightarrow> string" where
  "lineFingerprint k = ''SHA256:'' @ k"

definition fileSystemOf :: "(string \<times> byte list) list \<Rightarrow> filesystem" where
  "fileSystemOf files =
     \<lparr>Stat = (\<lambda>p. map_of files p \<noteq> None), ReadFile = map_of files,
      OpenFile = (\<lambda>p. True)\<rparr>"

section \<open>Start, Stop and the goroutines\<close>

text \<open>
  The goroutines of a server and the shared state \<^verbatim>\<open>Stop\<close> works on, as a transition
  system. The state holds whether the channel \<^verbatim>\<open>done\<close> is closed, the listener, the counter of
  the \<^verbatim>\<open>sync.WaitGroup\<close> \<^verbatim>\<open>wg\<close>, how many goroutines of each kind are running
  (\<^verbatim>\<open>acceptConnections\<close>, the goroutine around \<^verbatim>\<open>handleConnection\<close>, \<^verbatim>\<open>handleGlobalRequests\<close>,
  \<^verbatim>\<open>handleChannel\<close>, \<^verbatim>\<open>handleShell\<close>), and how far the call of \<^verbatim>\<open>Stop\<close> has come. A step is
  one action of one goroutine; any interleaving is allowed. The server is started at most
  once, before \<^verbatim>\<open>Stop\<close> is called, and \<^verbatim>\<open>Stop\<close> is called at most once, as the example programs
  do.
\<close>

datatype listener_state = NotListening | Listening | ListenerClosed

datatype stop_state = NotCalled | DoneClosed | Waiting | ReturnedNil | ReturnedError

record server_state =
  doneClosed :: bool
  listenerState :: listener_state
  wg :: int
  acceptLoops :: nat
  connections :: nat
  globalRequests :: nat
  channels :: nat
  shells :: nat
  stopState :: stop_state

definition initial :: server_state where
  "initial =
     \<lparr>doneClosed = False, listenerState = NotListening, wg = 0, acceptLoops = 0, connections = 0,
      globalRequests = 0, channels = 0, shells = 0, stopState = NotCalled\<rparr>"

text \<open>
  The steps, by the statements they stand for.
  \<^item> \<open>StartListens\<close>: \<^verbatim>\<open>Start\<close> after \<^verbatim>\<open>net.Listen\<close> succeeded: \<^verbatim>\<open>s.wg.Add(1)\<close>,
    \<^verbatim>\<open>go s.acceptConnections()\<close>.
  \<^item> \<open>Accept\<close>: \<^verbatim>\<open>s.listener.Accept()\<close> returns a connection: \<^verbatim>\<open>s.wg.Add(1)\<close> and the \<^verbatim>\<open>go\<close>
    statement around \<^verbatim>\<open>handleConnection\<close>. A goroutine already blocked in \<^verbatim>\<open>Accept\<close> can get a
    connection after \<^verbatim>\<open>done\<close> is closed, until the listener is closed.
  \<^item> \<open>AcceptLoopReturns\<close>: one of the two \<^verbatim>\<open>case <-s.done: return\<close>, with the deferred
    \<^verbatim>\<open>s.wg.Done()\<close>.
  \<^item> \<open>GoHandleGlobalRequests\<close>, \<open>GoHandleChannel\<close>: the \<^verbatim>\<open>go\<close> statements of
    \<^verbatim>\<open>handleConnection\<close>; neither touches \<^verbatim>\<open>wg\<close>.
  \<^item> \<open>HandleConnectionReturns\<close>: the handshake failed or the stream of new channels ended;
    the deferred \<^verbatim>\<open>s.wg.Done()\<close> of the goroutine runs.
  \<^item> \<open>GoHandleShellStarts\<close>: the \<^verbatim>\<open>go s.handleShell(channel)\<close> of \<^verbatim>\<open>handleChannel\<close>.
  \<^item> \<open>HandleGlobalRequestsReturns\<close>, \<open>HandleChannelReturns\<close>, \<open>HandleShellReturns\<close>: the
    goroutine ends.
  \<^item> \<open>StopClosesDone\<close>: \<^verbatim>\<open>close(s.done)\<close>. \<open>StopNoListener\<close>: \<^verbatim>\<open>s.listener\<close> is nil.
    \<open>StopClosesListener\<close>: \<^verbatim>\<open>s.listener.Close()\<close> succeeds. \<open>StopCloseFails\<close>: it returns an
    error and \<^verbatim>\<open>Stop\<close> returns it. \<open>StopWaitReturns\<close>: \<^verbatim>\<open>s.wg.Wait()\<close> returns, which it does
    when the counter is zero, and \<^verbatim>\<open>Stop\<close> returns nil.
\<close>

inductive step :: "server_state \<Rightarrow> server_state \<Rightarrow> bool" where
  StartListens:
    "stopState w = NotCalled \<Longrightarrow> listenerState w = NotListening \<Longrightarrow>
       step w (w\<lparr>listenerState := Listening, wg := wg w + 1, acceptLoops := acceptLoops w + 1\<rparr>)"
| Accept:
    "acceptLoops w > 0 \<Longrightarrow> listenerState w = Listening \<Longrightarrow>
       step w (w\<lparr>wg := wg w + 1, connections := connections w + 1\<rparr>)"
| AcceptLoopReturns:
    "acceptLoops w > 0 \<Longrightarrow> doneClosed w \<Longrightarrow>
       step w (w\<lparr>wg := wg w - 1, acceptLoops := acceptLoops w - 1\<rparr>)"
| GoHandleGlobalRequests:
    "connections w > 0 \<Longrightarrow> step w (w\<lparr>globalRequests := globalRequests w + 1\<rparr>)"
| GoHandleChannel:
    "connections w > 0 \<Longrightarrow> step w (w\<lparr>channels := channels w + 1\<rparr>)"
| HandleConnectionReturns:
    "connections w > 0 \<Longrightarrow>
       step w (w\<lparr>wg := wg w - 1, connections := connections w - 1\<rparr>)"
| HandleGlobalRequestsReturns:
    "globalRequests w > 0 \<Longrightarrow> step w (w\<lparr>globalRequests := globalRequests w - 1\<rparr>)"
| GoHandleShellStarts:
    "channels w > 0 \<Longrightarrow> step w (w\<lparr>shells := shells w + 1\<rparr>)"
| HandleChannelReturns:
    "channels w > 0 \<Longrightarrow> step w (w\<lparr>channels := channels w - 1\<rparr>)"
| HandleShellReturns:
    "shells w > 0 \<Longrightarrow> step w (w\<lparr>shells := shells w - 1\<rparr>)"
| StopClosesDone:
    "stopState w = NotCalled \<Longrightarrow> step w (w\<lparr>doneClosed := True, stopState := DoneClosed\<rparr>)"
| StopNoListener:
    "stopState w = DoneClosed \<Longrightarrow> listenerState w = NotListening \<Longrightarrow>
       step w (w\<lparr>stopState := Waiting\<rparr>)"
| StopClosesListener:
    "stopState w = DoneClosed \<Longrightarrow> listenerState w = Listening \<Longrightarrow>
       step w (w\<lparr>listenerState := ListenerClosed, stopState := Waiting\<rparr>)"
| StopCloseFails:
    "stopState w = DoneClosed \<Longrightarrow> listenerState w = Listening \<Longrightarrow>
       step w (w\<lparr>stopState := ReturnedError\<rparr>)"
| StopWaitReturns:
    "stopState w = Waiting \<Longrightarrow> wg w = 0 \<Longrightarrow> step w (w\<lparr>stopState := ReturnedNil\<rparr>)"

inductive reachable :: "server_state \<Rightarrow> bool" where
  Initial: "reachable initial"
| Step: "reachable w \<Longrightarrow> step w w' \<Longrightarrow> reachable w'"

text \<open>What holds in every reachable state: the counter of \<^verbatim>\<open>wg\<close> is the number of running
  accept loops and connection goroutines; once \<^verbatim>\<open>Stop\<close> is under way \<^verbatim>\<open>done\<close> is closed; once it
  waits the listener is no longer open; once it has returned nil the counter stays zero.\<close>

definition tracked :: "server_state \<Rightarrow> bool" where
  "tracked w \<longleftrightarrow>
     wg w = int (acceptLoops w + connections w) \<and>
     (stopState w \<noteq> NotCalled \<longrightarrow> doneClosed w) \<and>
     (stopState w = Waiting \<or> stopState w = ReturnedNil \<longrightarrow> listenerState w \<noteq> Listening) \<and>
     (stopState w = ReturnedNil \<longrightarrow> wg w = 0)"

section \<open>Properties of the configuration check\<close>

text \<open>
  C7. \<^verbatim>\<open>Validate\<close> returns an error, \<^verbatim>\<open>NewServer\<close> returns that error wrapped and no server,
  and the start-up binds no socket, whenever the listen address is empty, or client
  authentication is enabled and the host-key path or the authorized-keys path is empty or
  \<^verbatim>\<open>os.Stat\<close> fails on it. In every other case \<^verbatim>\<open>Validate\<close> accepts the configuration and
  \<^verbatim>\<open>NewServer\<close> does not reject it as invalid.
\<close>

theorem Validate_rejects_iff:
  "(ListenAddress cfg = [] \<or>
      (\<not> NoClientAuth cfg \<and>
         (HostKeyFile cfg = [] \<or> AuthorizedKeysFile cfg = [] \<or>
          \<not> Stat fs (HostKeyFile cfg) \<or> \<not> Stat fs (AuthorizedKeysFile cfg)))
      \<longrightarrow> (\<exists>err. Validate fs cfg = Some err \<and>
                 NewServer fs ParsePrivateKey cfg handler = Fails (InvalidConfiguration err) \<and>
                 startup fs ParsePrivateKey Listen cfg handler = [])) \<and>
   (\<not> (ListenAddress cfg = [] \<or>
      (\<not> NoClientAuth cfg \<and>
         (HostKeyFile cfg = [] \<or> AuthorizedKeysFile cfg = [] \<or>
          \<not> Stat fs (HostKeyFile cfg) \<or> \<not> Stat fs (AuthorizedKeysFile cfg))))
      \<longrightarrow> Validate fs cfg = None \<and>
          (\<forall>err. NewServer fs ParsePrivateKey cfg handler \<noteq> Fails (InvalidConfiguration err)))"
proof -
  have "NewServer fs ParsePrivateKey cfg handler \<noteq> Fails (InvalidConfiguration err)"
    if "Validate fs cfg = None" for err
    using that
    by (simp add: NewServer_def Let_def split: option.splits sum.splits)
  then show ?thesis
    by (auto simp add: Validate_def NewServer_def startup_def)
qed

theorem Validate_rejects_iff_witness:
  "Validate (fileSystemOf [(''server_key'', ''k'')]) DefaultConfig =
     Some (AuthorizedKeysFileNotFound ''authorized_keys'') \<and>
   NewServer (fileSystemOf [(''server_key'', ''k'')]) (\<lambda>b. Some b) DefaultConfig (Some MyHandler) =
     Fails (InvalidConfiguration (AuthorizedKeysFileNotFound ''authorized_keys'')) \<and>
   startup (fileSystemOf [(''server_key'', ''k'')]) (\<lambda>b. Some b) (\<lambda>a. True) DefaultConfig
     (Some MyHandler) = [] \<and>
   Validate (fileSystemOf [(''server_key'', ''k''), (''authorized_keys'', ''keyA'')]) DefaultConfig = None"
  using Validate_rejects_iff [of DefaultConfig "fileSystemOf [(''server_key'', ''k'')]"
      "\<lambda>b. Some b" "Some MyHandler" "\<lambda>a. True"]
    Validate_rejects_iff [of DefaultConfig
      "fileSystemOf [(''server_key'', ''k''), (''authorized_keys'', ''keyA'')]"
      "\<lambda>b. Some b" "Some MyHandler" "\<lambda>a. True"]
  by (simp add: DefaultConfig_def fileSystemOf_def Validate_def)

section \<open>Properties of public-key authentication\<close>

lemma authorizedKeysLoop_decides:
  assumes c: "consuming P"
  shows "\<exists>r. authorizedKeysLoop P F user fp inp = Some r \<and>
           ((\<exists>k \<in> set (entries P inp). F k = fp) \<longrightarrow>
              r = Returns \<lparr>Extensions = [''pubkey-fp'' \<mapsto> fp]\<rparr>) \<and>
           ((\<forall>k \<in> set (entries P inp). F k \<noteq> fp) \<longrightarrow> (\<exists>err. r = Fails err))"
proof (induction inp rule: length_induct)
  case (1 inp)
  show ?case
  proof (cases "inp = []")
    case True
    then show ?thesis
      by (subst authorizedKeysLoop.simps, subst entries.simps) simp
  next
    case False
    show ?thesis
    proof (cases "P inp")
      case None
      with False show ?thesis
        by (subst authorizedKeysLoop.simps, subst entries.simps) simp
    next
      case (Some a)
      obtain pubKey rest where a: "a = (pubKey, rest)" by (cases a)
      have lt: "length rest < length inp"
        using c Some a by (simp add: consuming_def)
      have e: "entries P inp = pubKey # entries P rest"
        using False Some a lt by (subst entries.simps) simp
      show ?thesis
      proof (cases "F pubKey = fp")
        case True
        with False Some a show ?thesis
          unfolding e by (subst authorizedKeysLoop.simps) auto
      next
        case no: False
        from "1.IH" lt obtain r where
          r: "authorizedKeysLoop P F user fp rest = Some r"
             "(\<exists>k \<in> set (entries P rest). F k = fp) \<longrightarrow>
                r = Returns \<lparr>Extensions = [''pubkey-fp'' \<mapsto> fp]\<rparr>"
             "(\<forall>k \<in> set (entries P rest). F k \<noteq> fp) \<longrightarrow> (\<exists>err. r = Fails err)"
          by blast
        have l: "authorizedKeysLoop P F user fp inp = authorizedKeysLoop P F user fp rest"
          using False Some a no by (subst authorizedKeysLoop.simps) simp
        show ?thesis
          unfolding l e using r no by auto
      qed
    qed
  qed
qed

lemma authorizedKeysLoop_first_match:
  "authorizedKeysBytes \<noteq> [] \<Longrightarrow> ParseAuthorizedKey authorizedKeysBytes = Some (pubKey, rest) \<Longrightarrow>
     FingerprintSHA256 pubKey = keyFingerprint \<Longrightarrow>
     authorizedKeysLoop ParseAuthorizedKey FingerprintSHA256 user keyFingerprint authorizedKeysBytes =
       Some (Returns \<lparr>Extensions = [''pubkey-fp'' \<mapsto> keyFingerprint]\<rparr>)"
  by (subst authorizedKeysLoop.simps) simp

lemma consuming_lineParser: "consuming lineParser"
proof -
  have "length (drop (Suc (length (takeWhile Q inp))) inp) < length inp"
    if "takeWhile Q inp \<noteq> []" for Q and inp :: "byte list"
    using that by (cases inp) auto
  then show ?thesis
    unfolding consuming_def lineParser_def Let_def by (auto split: if_splits)
qed

lemma entries_two_keys:
  "entries lineParser (''keyA'' @ [LF] @ ''keyB'' @ [LF]) = [''keyA'', ''keyB'']"
  by (simp add: entries.simps lineParser_def LF_def)

text \<open>
  C1. The authorized-keys file was read, and the parser consumes input. If one of the
  file's entries (the keys the parser gives in turn, up to the end of the bytes or the first
  error) has the fingerprint of the presented key, \<^verbatim>\<open>validatePublicKey\<close> returns a permission
  record whose extension \<^verbatim>\<open>pubkey-fp\<close> is that fingerprint; what follows the matching entry
  in the file plays no part. If every entry has another fingerprint it returns an error. An
  entry at the head of the file that matches is accepted at once.
\<close>

theorem validatePublicKey_decides:
  assumes "consuming ParseAuthorizedKey"
    and "ReadFile fs (AuthorizedKeysFile cfg) = Some authorizedKeysBytes"
  shows
    "((\<exists>pubKey \<in> set (entries ParseAuthorizedKey authorizedKeysBytes).
         FingerprintSHA256 pubKey = FingerprintSHA256 key) \<longrightarrow>
        validatePublicKey fs ParseAuthorizedKey FingerprintSHA256 cfg user key =
          Some (Returns \<lparr>Extensions = [''pubkey-fp'' \<mapsto> FingerprintSHA256 key]\<rparr>)) \<and>
     ((\<forall>pubKey \<in> set (entries ParseAuthorizedKey authorizedKeysBytes).
         FingerprintSHA256 pubKey \<noteq> FingerprintSHA256 key) \<longrightarrow>
        (\<exists>err. validatePublicKey fs ParseAuthorizedKey FingerprintSHA256 cfg user key =
           Some (Fails err))) \<and>
     (\<forall>pubKey rest.
        authorizedKeysBytes \<noteq> [] \<and> ParseAuthorizedKey authorizedKeysBytes = Some (pubKey, rest) \<and>
        FingerprintSHA256 pubKey = FingerprintSHA256 key \<longrightarrow>
        validatePublicKey fs ParseAuthorizedKey FingerprintSHA256 cfg user key =
          Some (Returns \<lparr>Extensions = [''pubkey-fp'' \<mapsto> FingerprintSHA256 key]\<rparr>))"
proof -
  have v: "validatePublicKey fs ParseAuthorizedKey FingerprintSHA256 cfg user key =
      authorizedKeysLoop ParseAuthorizedKey FingerprintSHA256 user (FingerprintSHA256 key)
        authorizedKeysBytes"
    using assms(2) by (simp add: validatePublicKey_def)
  show ?thesis
    unfolding v
    using authorizedKeysLoop_decides [OF assms(1), of FingerprintSHA256 user
        "FingerprintSHA256 key" authorizedKeysBytes]
      authorizedKeysLoop_first_match [of authorizedKeysBytes ParseAuthorizedKey _ _
        FingerprintSHA256 "FingerprintSHA256 key" user]
    by auto
qed

theorem validatePublicKey_decides_witness:
  "consuming lineParser \<and>
   validatePublicKey (fileSystemOf [(''authorized_keys'', ''keyA'' @ [LF] @ ''keyB'' @ [LF])])
     lineParser lineFingerprint DefaultConfig ''alice'' ''keyB'' =
     Some (Returns \<lparr>Extensions = [''pubkey-fp'' \<mapsto> ''SHA256:keyB'']\<rparr>) \<and>
   (\<exists>err. validatePublicKey (fileSystemOf [(''authorized_keys'', ''keyA'' @ [LF] @ ''keyB'' @ [LF])])
     lineParser lineFingerprint DefaultConfig ''alice'' ''keyC'' = Some (Fails err))"
proof -
  let ?file = "''keyA'' @ [LF] @ ''keyB'' @ [LF]"
  let ?fs = "fileSystemOf [(''authorized_keys'', ?file)]"
  have r: "ReadFile ?fs (AuthorizedKeysFile DefaultConfig) = Some ?file"
    by (simp add: fileSystemOf_def DefaultConfig_def)
  have yes: "\<exists>pubKey \<in> set (entries lineParser ?file).
      lineFingerprint pubKey = lineFingerprint ''keyB''"
    unfolding entries_two_keys by simp
  have no: "\<forall>pubKey \<in> set (entries lineParser ?file).
      lineFingerprint pubKey \<noteq> lineFingerprint ''keyC''"
    unfolding entries_two_keys by (simp add: lineFingerprint_def)
  have "validatePublicKey ?fs lineParser lineFingerprint DefaultConfig ''alice'' ''keyB'' =
      Some (Returns \<lparr>Extensions = [''pubkey-fp'' \<mapsto> lineFingerprint ''keyB'']\<rparr>)"
    using validatePublicKey_decides [OF consuming_lineParser r, of lineFingerprint "''keyB''" "''alice''"]
      yes by blast
  moreover have "\<exists>err. validatePublicKey ?fs lineParser lineFingerprint DefaultConfig ''alice'' ''keyC'' =
      Some (Fails err)"
    using validatePublicKey_decides [OF consuming_lineParser r, of lineFingerprint "''keyC''" "''alice''"]
      no by blast
  ultimately show ?thesis
    using consuming_lineParser by (simp add: lineFingerprint_def)
qed

text \<open>
  C8. When the authorized-keys file cannot be read, \<^verbatim>\<open>validatePublicKey\<close> returns the read
  error and no permissions, whatever the presented key, the parser and the fingerprints
  are.
\<close>

theorem validatePublicKey_fails_closed:
  "ReadFile fs (AuthorizedKeysFile cfg) = None \<Longrightarrow>
     validatePublicKey fs ParseAuthorizedKey FingerprintSHA256 cfg user key =
       Some (Fails ReadFileFailed)"
  by (simp add: validatePublicKey_def)

theorem validatePublicKey_fails_closed_witness:
  "ReadFile (fileSystemOf []) (AuthorizedKeysFile DefaultConfig) = None \<and>
   validatePublicKey (fileSystemOf []) lineParser lineFingerprint DefaultConfig ''alice'' ''keyA'' =
     Some (Fails ReadFileFailed)"
  using validatePublicKey_fails_closed [of "fileSystemOf []" DefaultConfig lineParser lineFingerprint
      "''alice''" "''keyA''"]
  by (simp add: fileSystemOf_def)

section \<open>Properties of the exec payload codec\<close>

lemma sint_le_uint: "sint v \<le> uint v"
proof -
  have "- (2 ^ (LENGTH('a) - Suc 0)) \<le> uint v"
    by (rule order_trans [of _ 0]) simp_all
  then show ?thesis
    by (simp add: sint_uint signed_take_bit_int_less_eq_self_iff)
qed

lemma int_of_uint32_le: "int_of_uint32 arch v \<le> uint v"
  by (cases arch) (simp_all add: sint_le_uint)

lemma exceeds_iff:
  "4 \<le> length payload \<Longrightarrow>
     (uint (w :: uint32) > int (length payload) - 4) = (length payload - 4 < unat w)"
  unfolding uint_nat by linarith

lemma parseExecPayload_in_range:
  assumes "declaredLength payload \<noteq> 0"
    and "unat (declaredLength payload) + 4 \<le> length payload"
    and "unat (declaredLength payload) + 4 < 2 ^ 32"
  shows "parseExecPayload arch payload =
           Returns (take (unat (declaredLength payload)) (drop 4 payload))"
proof -
  have len: "4 \<le> length payload"
    using assms(2) by simp
  have "unat (4 + declaredLength payload) = unat (4 :: uint32) + unat (declaredLength payload)"
    using assms(3) by (subst unat_add_lem [symmetric]) simp
  then have u: "unat (4 + declaredLength payload) = 4 + unat (declaredLength payload)"
    by simp
  have "\<not> uint (declaredLength payload) > int (length payload) - 4"
    using len assms(2) by (simp add: exceeds_iff)
  then have e: "\<not> int_of_uint32 arch (declaredLength payload) > int (length payload) - 4"
    using int_of_uint32_le [of arch "declaredLength payload"] by linarith
  have "slice payload 4 (unat (4 + declaredLength payload)) =
          Some (take (unat (declaredLength payload)) (drop 4 payload))"
    using assms(2) by (simp add: slice_def u)
  then show ?thesis
    using len assms(1) e by (simp add: parseExecPayload_def Let_def)
qed

lemma parseExecPayload_Fails_iff_Int64:
  "(\<exists>err. parseExecPayload Int64 payload = Fails err) \<longleftrightarrow>
     length payload < 4 \<or>
     (4 \<le> length payload \<and>
        (declaredLength payload = 0 \<or> length payload - 4 < unat (declaredLength payload)))"
proof (cases "length payload < 4")
  case True
  then show ?thesis by (simp add: parseExecPayload_def)
next
  case False
  then have "4 \<le> length payload" by simp
  then show ?thesis
    by (auto simp add: parseExecPayload_def Let_def exceeds_iff split: option.splits)
qed

lemma declaredLength_same_head:
  "4 \<le> n \<Longrightarrow> n \<le> length payload \<Longrightarrow>
     declaredLength (take n payload @ extra) = declaredLength payload"
  by (simp add: declaredLength_def nth_append)

text \<open>
  C2. With a 32-bit \<^verbatim>\<open>int\<close>, the exec payload \<^verbatim>\<open>FF FF FF FF\<close> declares a length of
  \<open>2 ^ 32 - 1\<close> with no byte after the length field; \<^verbatim>\<open>int(length)\<close> is \<open>-1\<close>, the guard
  \<^verbatim>\<open>int(length) > len(payload)-4\<close> lets it pass, and the slice expression \<^verbatim>\<open>payload[4:3]\<close>
  panics: \<^verbatim>\<open>parseExecPayload\<close> returns no error and \<^verbatim>\<open>handleChannel\<close> sends no negative reply.
  With a 64-bit \<^verbatim>\<open>int\<close> the same payload is refused with an error.
\<close>

theorem malformed_exec_panics_Int32:
  "length [CHR 0xFF, CHR 0xFF, CHR 0xFF, CHR 0xFF] - 4 <
     unat (declaredLength [CHR 0xFF, CHR 0xFF, CHR 0xFF, CHR 0xFF]) \<and>
   parseExecPayload Int32 [CHR 0xFF, CHR 0xFF, CHR 0xFF, CHR 0xFF] = Panics \<and>
   handleChannel Int32 (Some MyHandler) ()
     [\<lparr>Type = ''exec'', Payload = [CHR 0xFF, CHR 0xFF, CHR 0xFF, CHR 0xFF]\<rparr>] =
     ([Close, Panic], ()) \<and>
   parseExecPayload Int64 [CHR 0xFF, CHR 0xFF, CHR 0xFF, CHR 0xFF] = Fails InvalidCommandLength"
  by (simp add: parseExecPayload_def declaredLength_def slice_def)

lemma of_char_char_of_unat:
  "(of_char (char_of (unat w)) :: uint32) = take_bit 8 w" for w :: uint32
proof -
  have "(of_char (char_of (unat w)) :: uint32) = of_nat (of_char (char_of (unat w)))"
    by (simp only: of_nat_of_char)
  also have "\<dots> = of_nat (take_bit 8 (unat w))"
    by (simp only: of_char_of take_bit_eq_mod) simp
  also have "\<dots> = take_bit 8 w"
    by (simp add: unsigned_take_bit_eq [symmetric] del: unsigned_take_bit_eq)
  finally show ?thesis .
qed

lemma declaredLength_putUint32: "declaredLength (putUint32 v @ c) = v"
proof (rule bit_eqI)
  fix n
  assume "possible_bit TYPE(uint32) n"
  then have n: "n < 32" by simp
  consider "n < 8" | "8 \<le> n" "n < 16" | "16 \<le> n" "n < 24" | "24 \<le> n" "n < 32"
    using n by linarith
  then show "bit (declaredLength (putUint32 v @ c)) n = bit v n"
    unfolding declaredLength_def putUint32_def
    by cases (auto simp add: of_char_char_of_unat bit_simps)
qed

text \<open>The empty command is encoded with a length field of zero, which the decoder
  rejects.\<close>

theorem exec_roundtrip_empty:
  "parseExecPayload Int64 (encodeExecPayload '''') = Fails InvalidCommandLength \<and>
   parseExecPayload Int32 (encodeExecPayload '''') = Fails InvalidCommandLength"
proof -
  have "declaredLength (putUint32 0 @ []) = 0"
    by (rule declaredLength_putUint32)
  then show ?thesis
    by (simp add: encodeExecPayload_def parseExecPayload_def putUint32_def)
qed

text \<open>
  C3. Encoding a command as a four-byte big-endian length followed by its bytes and decoding
  the result with \<^verbatim>\<open>parseExecPayload\<close> gives the command back, for every command that is not
  empty and has fewer than \<open>2 ^ 32 - 4\<close> bytes, with either width of \<^verbatim>\<open>int\<close>.
\<close>

theorem exec_roundtrip:
  assumes "command \<noteq> []" and "length command < 2 ^ 32 - 4"
  shows "parseExecPayload arch (encodeExecPayload command) = Returns command"
proof -
  let ?p = "encodeExecPayload command"
  have len: "length ?p = length command + 4"
    by (simp add: encodeExecPayload_def putUint32_def)
  have d: "declaredLength ?p = word_of_nat (length command)"
    by (simp add: encodeExecPayload_def declaredLength_putUint32)
  have u: "unat (declaredLength ?p) = length command"
    using assms(2) by (intro of_nat_inverse) (simp_all add: d)
  have nz: "declaredLength ?p \<noteq> 0"
    using u assms(1) by (metis length_0_conv unat_0)
  have "parseExecPayload arch ?p = Returns (take (length command) (drop 4 ?p))"
    using parseExecPayload_in_range [of ?p arch] len nz u assms(2) by simp
  also have "drop 4 ?p = command"
    by (simp add: encodeExecPayload_def putUint32_def)
  finally show ?thesis by simp
qed

theorem exec_roundtrip_witness:
  "''ls'' \<noteq> [] \<and> length ''ls'' < (2 :: nat) ^ 32 - 4 \<and>
   encodeExecPayload ''ls'' = [CHR 0x00, CHR 0x00, CHR 0x00, CHR 0x02, CHR ''l'', CHR ''s''] \<and>
   parseExecPayload Int64 (encodeExecPayload ''ls'') = Returns ''ls'' \<and>
   parseExecPayload Int32 (encodeExecPayload ''ls'') = Returns ''ls''"
  using exec_roundtrip [of "''ls''" Int64] exec_roundtrip [of "''ls''" Int32]
  by (simp add: encodeExecPayload_def putUint32_def char_of_def bit_Suc_0_iff)

text \<open>
  C10. The payload is that of an SSH channel request, handed over by \<^verbatim>\<open>handleChannel\<close>, the
  only caller of \<^verbatim>\<open>parseExecPayload\<close>; it arrives in one SSH packet and so has fewer than
  \<open>2 ^ 32\<close> bytes. If its first four bytes declare a length \<open>L\<close> with \<open>0 < L\<close> and
  \<open>L \<le> len - 4\<close>, \<^verbatim>\<open>parseExecPayload\<close> returns the \<open>L\<close> bytes at the positions \<open>4\<close> to
  \<open>4 + L - 1\<close>, with either width of \<^verbatim>\<open>int\<close>. The bytes after them play no part: with any
  other bytes in their place the result is the same.
\<close>

theorem parseExecPayload_decodes:
  assumes "length payload < 2 ^ 32"
    and "declaredLength payload \<noteq> 0"
    and "unat (declaredLength payload) + 4 \<le> length payload"
  shows
    "parseExecPayload arch payload =
       Returns (take (unat (declaredLength payload)) (drop 4 payload)) \<and>
     length (take (unat (declaredLength payload)) (drop 4 payload)) =
       unat (declaredLength payload) \<and>
     (\<forall>i. i < unat (declaredLength payload) \<longrightarrow>
        take (unat (declaredLength payload)) (drop 4 payload) ! i = payload ! (4 + i)) \<and>
     (\<forall>extra.
        length (take (unat (declaredLength payload) + 4) payload @ extra) < 2 ^ 32 \<longrightarrow>
        parseExecPayload arch (take (unat (declaredLength payload) + 4) payload @ extra) =
          parseExecPayload arch payload)"
proof (intro conjI allI impI)
  let ?L = "unat (declaredLength payload)"
  have lt: "?L + 4 < 2 ^ 32"
    using assms(1,3) by linarith
  show r: "parseExecPayload arch payload = Returns (take ?L (drop 4 payload))"
    using assms(2,3) lt by (rule parseExecPayload_in_range)
  show "length (take ?L (drop 4 payload)) = ?L"
    using assms(3) by simp
  show "take ?L (drop 4 payload) ! i = payload ! (4 + i)" if "i < ?L" for i
    using that assms(3) by simp
  show "parseExecPayload arch (take (?L + 4) payload @ extra) = parseExecPayload arch payload"
    if "length (take (?L + 4) payload @ extra) < 2 ^ 32" for extra
  proof -
    let ?q = "take (?L + 4) payload @ extra"
    have d: "declaredLength ?q = declaredLength payload"
      using assms(3) by (intro declaredLength_same_head) simp_all
    have "parseExecPayload arch ?q = Returns (take ?L (drop 4 ?q))"
      using parseExecPayload_in_range [of ?q arch] assms(2,3) lt by (simp add: d)
    also have "take ?L (drop 4 ?q) = take ?L (drop 4 payload)"
      using assms(3) by (simp add: min_def take_drop add.commute)
    finally show ?thesis
      using r by simp
  qed
qed

theorem parseExecPayload_decodes_witness:
  "parseExecPayload Int64 [CHR 0x00, CHR 0x00, CHR 0x00, CHR 0x02, CHR ''l'', CHR ''s'', CHR ''x''] =
     Returns ''ls'' \<and>
   parseExecPayload Int32 [CHR 0x00, CHR 0x00, CHR 0x00, CHR 0x02, CHR ''l'', CHR ''s'', CHR ''x''] =
     Returns ''ls'' \<and>
   parseExecPayload Int64 [CHR 0x00, CHR 0x00, CHR 0x00, CHR 0x02, CHR ''l'', CHR ''s'', CHR ''y'', CHR ''z''] =
     Returns ''ls''"
proof -
  let ?p = "[CHR 0x00, CHR 0x00, CHR 0x00, CHR 0x02, CHR ''l'', CHR ''s'', CHR ''x'']"
  have d: "declaredLength ?p = 2"
    by (simp add: declaredLength_def)
  have h: "length ?p < 2 ^ 32" "declaredLength ?p \<noteq> 0" "unat (declaredLength ?p) + 4 \<le> length ?p"
    by (simp_all add: d)
  from parseExecPayload_decodes [OF h, of Int64] parseExecPayload_decodes [OF h, of Int32]
  have a: "parseExecPayload Int64 ?p = Returns ''ls''" "parseExecPayload Int32 ?p = Returns ''ls''"
    and b: "\<forall>extra. length (take (unat (declaredLength ?p) + 4) ?p @ extra) < 2 ^ 32 \<longrightarrow>
        parseExecPayload Int64 (take (unat (declaredLength ?p) + 4) ?p @ extra) =
          parseExecPayload Int64 ?p"
    by (simp_all add: d)
  from b [rule_format, of "[CHR ''y'', CHR ''z'']"] a
  have "parseExecPayload Int64
      [CHR 0x00, CHR 0x00, CHR 0x00, CHR 0x02, CHR ''l'', CHR ''s'', CHR ''y'', CHR ''z''] =
      Returns ''ls''"
    by (simp add: d)
  with a show ?thesis by simp
qed

section \<open>Properties of the channel router\<close>



lemma malformed_exec_answer:
  "Type req = ''exec'' \<Longrightarrow> parseExecPayload arch (Payload req) = Fails err \<Longrightarrow>
     stays arch h req \<and> answer h s req = [Reply False]"
  by (auto simp add: stays_def answer_def)







section \<open>Properties of the line editor\<close>

lemma shellLoop_data:
  "shellLoop H st (map (\<lambda>data. (data, None)) chunks) = foldl (shellByte H) st (concat chunks)"
  by (induction chunks arbitrary: st) simp_all

lemma shellByte_other:
  "b \<noteq> CR \<Longrightarrow> b \<noteq> LF \<Longrightarrow> b \<noteq> CHR 0x7F \<Longrightarrow> b \<noteq> CHR 0x08 \<Longrightarrow>
     shellByte H st b = st\<lparr>cmdBuffer := cmdBuffer st @ [b], events := events st @ [Write [b]]\<rparr>"
  by (simp add: shellByte_def)

lemma shellByte_newline_empty:
  "b = CR \<or> b = LF \<Longrightarrow> cmdBuffer st = [] \<Longrightarrow>
     shellByte H st b =
       st\<lparr>events := events st @ [Write ([CR, LF] @ GetPrompt H (handlerState st))]\<rparr>"
  by (auto simp add: shellByte_def)

lemma shellByte_newline_command:
  "b = CR \<or> b = LF \<Longrightarrow> cmdBuffer st \<noteq> [] \<Longrightarrow>
     shellByte H st b =
       st\<lparr>handlerState := snd (Execute H (handlerState st) (cmdBuffer st)), cmdBuffer := [],
          events := events st @
            [Executed (cmdBuffer st),
             Write ([CR, LF] @ fst (fst (Execute H (handlerState st) (cmdBuffer st))) @ [CR, LF] @
                    GetPrompt H (snd (Execute H (handlerState st) (cmdBuffer st))))]\<rparr>"
  by (auto simp add: shellByte_def split: prod.splits)

lemma echo_hi:
  "foldl (shellByte H) \<lparr>handlerState = s, cmdBuffer = [], events = [Write (GetPrompt H s)]\<rparr>
     (''echo hi'' @ [CR]) =
   \<lparr>handlerState = snd (Execute H s ''echo hi''), cmdBuffer = [],
    events = [Write (GetPrompt H s), Write ''e'', Write ''c'', Write ''h'', Write ''o'', Write '' '',
              Write ''h'', Write ''i'', Executed ''echo hi'',
              Write ([CR, LF] @ fst (fst (Execute H s ''echo hi'')) @ [CR, LF] @
                     GetPrompt H (snd (Execute H s ''echo hi'')))]\<rparr>"
  by (simp add: shellByte_other shellByte_newline_command CR_def LF_def)

text \<open>
  C5. \<^verbatim>\<open>handleShell\<close> starts with an empty buffer. Fed the bytes of \<^verbatim>\<open>echo hi\<close> and a carriage
  return, in whatever pieces the reads deliver them, it calls \<^verbatim>\<open>Execute\<close> exactly once, with
  \<^verbatim>\<open>echo hi\<close>, and the buffer is empty afterwards. A carriage return or line feed that arrives
  while the buffer is empty writes a line break and the prompt, and nothing is executed.
\<close>

theorem line_editor_dispatch:
  "(concat chunks = ''echo hi'' @ [CR] \<longrightarrow>
      executed (events (handleShell H s (map (\<lambda>data. (data, None)) chunks))) = [''echo hi''] \<and>
      cmdBuffer (handleShell H s (map (\<lambda>data. (data, None)) chunks)) = []) \<and>
   ((b = CR \<or> b = LF) \<and> cmdBuffer st = [] \<longrightarrow>
      shellByte H st b =
        st\<lparr>events := events st @ [Write ([CR, LF] @ GetPrompt H (handlerState st))]\<rparr>)"
proof (intro conjI impI)
  assume "concat chunks = ''echo hi'' @ [CR]"
  then have "handleShell H s (map (\<lambda>data. (data, None)) chunks) =
      foldl (shellByte H) \<lparr>handlerState = s, cmdBuffer = [], events = [Write (GetPrompt H s)]\<rparr>
        (''echo hi'' @ [CR])"
    by (simp only: handleShell_def shellLoop_data)
  then have e: "handleShell H s (map (\<lambda>data. (data, None)) chunks) =
      \<lparr>handlerState = snd (Execute H s ''echo hi''), cmdBuffer = [],
       events = [Write (GetPrompt H s), Write ''e'', Write ''c'', Write ''h'', Write ''o'',
                 Write '' '', Write ''h'', Write ''i'', Executed ''echo hi'',
                 Write ([CR, LF] @ fst (fst (Execute H s ''echo hi'')) @ [CR, LF] @
                        GetPrompt H (snd (Execute H s ''echo hi'')))]\<rparr>"
    by (simp only: echo_hi)
  show "executed (events (handleShell H s (map (\<lambda>data. (data, None)) chunks))) = [''echo hi'']"
    unfolding e by simp
  show "cmdBuffer (handleShell H s (map (\<lambda>data. (data, None)) chunks)) = []"
    unfolding e by simp
next
  assume "(b = CR \<or> b = LF) \<and> cmdBuffer st = []"
  then show "shellByte H st b =
      st\<lparr>events := events st @ [Write ([CR, LF] @ GetPrompt H (handlerState st))]\<rparr>"
    using shellByte_newline_empty [of b st H] by blast
qed

theorem line_editor_dispatch_witness:
  "concat [''echo '', ''hi'' @ [CR]] = ''echo hi'' @ [CR] \<and>
   handleShell MyHandler () [(''echo '', None), (''hi'' @ [CR], None)] =
     \<lparr>handlerState = (), cmdBuffer = [],
      events = [Write ''my-server> '', Write ''e'', Write ''c'', Write ''h'', Write ''o'',
                Write '' '', Write ''h'', Write ''i'', Executed ''echo hi'',
                Write ([CR, LF] @ ''Command output'' @ [CR, LF] @ ''my-server> '')]\<rparr> \<and>
   executed (events (handleShell MyHandler () [(''echo '', None), (''hi'' @ [CR], None)])) =
     [''echo hi''] \<and>
   shellByte MyHandler \<lparr>handlerState = (), cmdBuffer = [], events = []\<rparr> LF =
     \<lparr>handlerState = (), cmdBuffer = [], events = [Write ([CR, LF] @ ''my-server> '')]\<rparr>"
  using line_editor_dispatch [where chunks = "[''echo '', ''hi'' @ [CR]]" and H = MyHandler
      and s = "()" and b = LF and st = "\<lparr>handlerState = (), cmdBuffer = [], events = []\<rparr>"]
  by (simp add: handleShell_def shellByte_def MyHandler_def CR_def LF_def)

text \<open>
  C6. On a byte \<open>0x7f\<close> or \<open>0x08\<close> with a non-empty buffer, the last byte of the buffer is
  dropped (\<^verbatim>\<open>abc\<close> becomes \<^verbatim>\<open>ab\<close>) and the three bytes backspace, space, backspace are
  written; with an empty buffer nothing changes and nothing is written.
\<close>

theorem line_editor_backspace:
  "b = CHR 0x7F \<or> b = CHR 0x08 \<Longrightarrow>
     (cmdBuffer st \<noteq> [] \<longrightarrow>
        shellByte H st b =
          st\<lparr>cmdBuffer := butlast (cmdBuffer st),
             events := events st @ [Write [CHR 0x08, CHR 0x20, CHR 0x08]]\<rparr>) \<and>
     (cmdBuffer st = [] \<longrightarrow> shellByte H st b = st) \<and>
     (cmdBuffer st = ''abc'' \<longrightarrow> cmdBuffer (shellByte H st b) = ''ab'')"
  by (auto simp add: shellByte_def CR_def LF_def butlast_conv_take)

theorem line_editor_backspace_witness:
  "shellByte MyHandler \<lparr>handlerState = (), cmdBuffer = ''abc'', events = []\<rparr> (CHR 0x7F) =
     \<lparr>handlerState = (), cmdBuffer = ''ab'', events = [Write [CHR 0x08, CHR 0x20, CHR 0x08]]\<rparr> \<and>
   shellByte MyHandler \<lparr>handlerState = (), cmdBuffer = [], events = []\<rparr> (CHR 0x08) =
     \<lparr>handlerState = (), cmdBuffer = [], events = []\<rparr>"
  using line_editor_backspace [where b = "CHR 0x7F" and H = MyHandler
      and st = "\<lparr>handlerState = (), cmdBuffer = ''abc'', events = []\<rparr>"]
    line_editor_backspace [where b = "CHR 0x08" and H = MyHandler
      and st = "\<lparr>handlerState = (), cmdBuffer = [], events = []\<rparr>"]
  by simp

section \<open>Properties of Stop\<close>

lemma tracked_initial: "tracked initial"
  by (simp add: tracked_def initial_def)

lemma tracked_step: "step w w' \<Longrightarrow> tracked w \<Longrightarrow> tracked w'"
  by (induction rule: step.induct) (auto simp add: tracked_def)

lemma reachable_tracked: "reachable w \<Longrightarrow> tracked w"
  by (induction rule: reachable.induct) (auto intro: tracked_initial tracked_step)

text \<open>A run: the server starts, accepts a connection and opens a channel on it; the
  connection ends while the channel's goroutine is still busy; \<^verbatim>\<open>Stop\<close> closes \<^verbatim>\<open>done\<close> and the
  listener, the accept loop returns, and \<^verbatim>\<open>Stop\<close> returns nil.\<close>

lemma reachable_channel_after_Stop:
  "reachable
     \<lparr>doneClosed = True, listenerState = ListenerClosed, wg = 0, acceptLoops = 0, connections = 0,
      globalRequests = 0, channels = 1, shells = 0, stopState = ReturnedNil\<rparr>"
proof -
  have "reachable
     \<lparr>doneClosed = False, listenerState = Listening, wg = 1, acceptLoops = 1, connections = 0,
      globalRequests = 0, channels = 0, shells = 0, stopState = NotCalled\<rparr>"
    using Step [OF Initial StartListens [of initial]] by (simp add: initial_def)
  from Step [OF this Accept] have "reachable
     \<lparr>doneClosed = False, listenerState = Listening, wg = 2, acceptLoops = 1, connections = 1,
      globalRequests = 0, channels = 0, shells = 0, stopState = NotCalled\<rparr>"
    by simp
  from Step [OF this GoHandleChannel] have "reachable
     \<lparr>doneClosed = False, listenerState = Listening, wg = 2, acceptLoops = 1, connections = 1,
      globalRequests = 0, channels = 1, shells = 0, stopState = NotCalled\<rparr>"
    by simp
  from Step [OF this HandleConnectionReturns] have "reachable
     \<lparr>doneClosed = False, listenerState = Listening, wg = 1, acceptLoops = 1, connections = 0,
      globalRequests = 0, channels = 1, shells = 0, stopState = NotCalled\<rparr>"
    by simp
  from Step [OF this StopClosesDone] have "reachable
     \<lparr>doneClosed = True, listenerState = Listening, wg = 1, acceptLoops = 1, connections = 0,
      globalRequests = 0, channels = 1, shells = 0, stopState = DoneClosed\<rparr>"
    by simp
  from Step [OF this StopClosesListener] have "reachable
     \<lparr>doneClosed = True, listenerState = ListenerClosed, wg = 1, acceptLoops = 1, connections = 0,
      globalRequests = 0, channels = 1, shells = 0, stopState = Waiting\<rparr>"
    by simp
  from Step [OF this AcceptLoopReturns] have "reachable
     \<lparr>doneClosed = True, listenerState = ListenerClosed, wg = 0, acceptLoops = 0, connections = 0,
      globalRequests = 0, channels = 1, shells = 0, stopState = Waiting\<rparr>"
    by simp
  from Step [OF this StopWaitReturns] show ?thesis
    by simp
qed

text \<open>\<^verbatim>\<open>Stop\<close> has returned nil and a \<^verbatim>\<open>handleChannel\<close> goroutine is still running.\<close>

theorem Stop_returns_before_channel:
  "reachable
     \<lparr>doneClosed = True, listenerState = ListenerClosed, wg = 0, acceptLoops = 0, connections = 0,
      globalRequests = 0, channels = 1, shells = 0, stopState = ReturnedNil\<rparr>"
  by (rule reachable_channel_after_Stop)

text \<open>
  C9. When \<^verbatim>\<open>Stop\<close> has returned nil, the channel \<^verbatim>\<open>done\<close> is closed, the listener is not open,
  and the accept loop and every connection goroutine have finished: these are the goroutines
  the counter of \<^verbatim>\<open>wg\<close> counts. The goroutines of \<^verbatim>\<open>handleGlobalRequests\<close>, \<^verbatim>\<open>handleChannel\<close> and
  \<^verbatim>\<open>handleShell\<close> are started without \<^verbatim>\<open>wg.Add\<close> and are not waited for.
\<close>

theorem Stop_waits_for_tracked:
  "reachable w \<Longrightarrow> stopState w = ReturnedNil \<Longrightarrow>
     doneClosed w \<and> listenerState w \<noteq> Listening \<and> acceptLoops w = 0 \<and> connections w = 0"
  using reachable_tracked [of w] by (auto simp add: tracked_def)

theorem Stop_waits_for_tracked_witness:
  "reachable
     \<lparr>doneClosed = True, listenerState = ListenerClosed, wg = 0, acceptLoops = 0, connections = 0,
      globalRequests = 0, channels = 1, shells = 0, stopState = ReturnedNil\<rparr> \<and>
   acceptLoops
     \<lparr>doneClosed = True, listenerState = ListenerClosed, wg = 0, acceptLoops = 0, connections = 0,
      globalRequests = 0, channels = 1, shells = 0, stopState = ReturnedNil\<rparr> = 0 \<and>
   connections
     \<lparr>doneClosed = True, listenerState = ListenerClosed, wg = 0, acceptLoops = 0, connections = 0,
      globalRequests = 0, channels = 1, shells = 0, stopState = ReturnedNil\<rparr> = 0"
  using Stop_waits_for_tracked [OF reachable_channel_after_Stop] reachable_channel_after_Stop
  by simp

end
